theory Spec2Isabelle
  imports Main "HOL-Library.Word" "HOL-Library.Sublist"
begin

section \<open>JavaScript strings\<close>

text \<open>
  A JavaScript string is a sequence of UTF-16 code units; \<open>length\<close>, \<open>substring\<close>,
  \<open>trim\<close> and a regular expression without the \<open>u\<close> flag all work on code units.
  The literals of the source are ASCII and are embedded with \<open>str\<close>.
\<close>

type_synonym code_unit = "16 word"
type_synonym jsstring = "code_unit list"

definition str :: "string \<Rightarrow> jsstring" where
  "str s = map of_char s"

definition quote :: code_unit where
  "quote = 0x22"

definition newline :: code_unit where
  "newline = 0x0A"

text \<open>
  The code units that \<open>\s\<close> matches and that \<open>String.prototype.trim\<close> strips
  (ECMAScript WhiteSpace and LineTerminator).
\<close>

definition is_space :: "code_unit \<Rightarrow> bool" where
  "is_space c \<longleftrightarrow>
     c = 0x09 \<or> c = 0x0A \<or> c = 0x0B \<or> c = 0x0C \<or> c = 0x0D \<or> c = 0x20 \<or> c = 0xA0 \<or>
     c = 0x1680 \<or> (0x2000 \<le> c \<and> c \<le> 0x200A) \<or> c = 0x2028 \<or> c = 0x2029 \<or>
     c = 0x202F \<or> c = 0x205F \<or> c = 0x3000 \<or> c = 0xFEFF"

definition trim :: "jsstring \<Rightarrow> jsstring" where
  "trim s = rev (dropWhile is_space (rev (dropWhile is_space s)))"

definition substring :: "jsstring \<Rightarrow> nat \<Rightarrow> nat \<Rightarrow> jsstring" where
  \<comment> \<open>\<open>s.substring(a, b)\<close> for non-negative integers: the arguments are clamped to the
      length and swapped when out of order\<close>
  "substring s a b =
     (let a' = min a (length s); b' = min b (length s);
          lo = min a' b'; hi = max a' b'
      in take (hi - lo) (drop lo s))"

section \<open>Regular expressions\<close>

text \<open>
  The fragment of regular expressions the source uses: a sequence of items, each a
  character class taken once, optionally (\<open>?\<close>), any number of times (\<open>*\<close>) or at
  least once (\<open>+\<close>), possibly inside a capturing group. Quantifiers are greedy and the
  matcher backtracks: it tries the longest repetition first and gives characters back
  until the rest of the pattern matches.
\<close>

datatype cls = Chr code_unit | Space | NotChr code_unit

fun cls_ok :: "cls \<Rightarrow> code_unit \<Rightarrow> bool" where
  "cls_ok (Chr c) x \<longleftrightarrow> x = c"
| "cls_ok Space x \<longleftrightarrow> is_space x"
| "cls_ok (NotChr c) x \<longleftrightarrow> x \<noteq> c"

datatype item = One cls | Opt cls | Star cls | Plus cls | Group item

type_synonym regex = "item list"

definition lit :: "string \<Rightarrow> regex" where
  "lit s = map (\<lambda>c. One (Chr (of_char c))) s"

text \<open>
  \<open>rmatch p s\<close> matches \<open>p\<close> at the start of \<open>s\<close>. On success it returns the text
  consumed by each item of \<open>p\<close>, in order, and the rest of the input.
\<close>

definition seg_cons ::
  "jsstring \<Rightarrow> (jsstring list \<times> jsstring) option \<Rightarrow> (jsstring list \<times> jsstring) option" where
  "seg_cons seg m = (case m of None \<Rightarrow> None | Some (segs, r) \<Rightarrow> Some (seg # segs, r))"

definition seg_extend ::
  "code_unit \<Rightarrow> (jsstring list \<times> jsstring) option \<Rightarrow> (jsstring list \<times> jsstring) option" where
  \<comment> \<open>one more repetition, put before the text of the repeated item\<close>
  "seg_extend x m =
     (case m of
        Some (seg # segs, r) \<Rightarrow> Some ((x # seg) # segs, r)
      | _ \<Rightarrow> None)"

fun rmatch :: "regex \<Rightarrow> jsstring \<Rightarrow> (jsstring list \<times> jsstring) option" where
  "rmatch [] s = Some ([], s)"
| "rmatch (One c # p) [] = None"
| "rmatch (One c # p) (x # xs) =
     (if cls_ok c x then seg_cons [x] (rmatch p xs) else None)"
| "rmatch (Opt c # p) [] = seg_cons [] (rmatch p [])"
| "rmatch (Opt c # p) (x # xs) =
     (if cls_ok c x then
        (case rmatch p xs of
           Some m \<Rightarrow> seg_cons [x] (Some m)
         | None \<Rightarrow> seg_cons [] (rmatch p (x # xs)))
      else seg_cons [] (rmatch p (x # xs)))"
| "rmatch (Star c # p) [] = seg_cons [] (rmatch p [])"
| "rmatch (Star c # p) (x # xs) =
     (if cls_ok c x then
        (case rmatch (Star c # p) xs of
           Some m \<Rightarrow> seg_extend x (Some m)
         | None \<Rightarrow> seg_cons [] (rmatch p (x # xs)))
      else seg_cons [] (rmatch p (x # xs)))"
| "rmatch (Plus c # p) [] = None"
| "rmatch (Plus c # p) (x # xs) =
     (if cls_ok c x then seg_extend x (rmatch (Star c # p) xs) else None)"
| "rmatch (Group i # p) s = rmatch (i # p) s"

text \<open>The texts of the capturing groups of a match, in the order of the groups.\<close>

fun groups :: "regex \<Rightarrow> jsstring list \<Rightarrow> jsstring list" where
  "groups (Group i # p) (seg # segs) = seg # groups p segs"
| "groups (_ # p) (seg # segs) = groups p segs"
| "groups _ _ = []"

text \<open>
  \<open>s.match(re)\<close> for a regular expression without the \<open>g\<close> flag: the leftmost
  position where the pattern matches; the result array holds the whole match and then
  the groups; \<open>None\<close> is JavaScript's \<open>null\<close>.
\<close>

fun match :: "jsstring \<Rightarrow> regex \<Rightarrow> jsstring list option" where
  "match [] p =
     (case rmatch p [] of
        Some (segs, r) \<Rightarrow> Some (concat segs # groups p segs)
      | None \<Rightarrow> None)"
| "match (x # xs) p =
     (case rmatch p (x # xs) of
        Some (segs, r) \<Rightarrow> Some (concat segs # groups p segs)
      | None \<Rightarrow> match xs p)"

text \<open>
  \<open>s.replace(re, rep)\<close> for a regular expression with the \<open>g\<close> flag and a
  replacement without \<open>$\<close>: the matches are found from left to right, each search
  starting where the previous match ended (one code unit further after an empty match).
\<close>

function replace_all :: "jsstring \<Rightarrow> regex \<Rightarrow> jsstring \<Rightarrow> jsstring" where
  "replace_all [] p rep = (case rmatch p [] of Some m \<Rightarrow> rep | None \<Rightarrow> [])"
| "replace_all (x # xs) p rep =
     (case rmatch p (x # xs) of
        None \<Rightarrow> x # replace_all xs p rep
      | Some (segs, r) \<Rightarrow>
          if concat segs = [] then rep @ x # replace_all xs p rep
          else rep @ replace_all (drop (length (concat segs)) (x # xs)) p rep)"
  by pat_completeness auto
termination
  by (relation "measure (\<lambda>(s, p, rep). length s)") auto

section \<open>JavaScript values, errors, files\<close>

type_synonym float64 = "64 word"
  \<comment> \<open>a number, as the bits of its IEEE 754 double; no operation of the source inspects one\<close>

datatype jsvalue =
    JUndefined
  | JNull
  | JBool bool
  | JNum float64
  | JStr jsstring
  | JArr "jsvalue list"
  | JObj "(jsstring \<times> jsvalue) list"

datatype error = Error (error_message: jsstring)

definition TypeError_property :: "string \<Rightarrow> string \<Rightarrow> error" where
  \<comment> \<open>reading a property of \<open>null\<close> or \<open>undefined\<close>, in the words of V8\<close>
  "TypeError_property of_what prop =
     Error (str (''Cannot read properties of '' @ of_what @ '' (reading '' @ [CHR 0x27] @ prop
                 @ [CHR 0x27] @ '')''))"

definition ENOENT :: "string \<Rightarrow> jsstring \<Rightarrow> error" where
  \<comment> \<open>a file operation on a path that does not exist, in the words of Node.js\<close>
  "ENOENT syscall p =
     Error (str (''ENOENT: no such file or directory, '' @ syscall @ '' '' @ [CHR 0x27]) @ p
            @ str [CHR 0x27])"

text \<open>
  An object is the list of its own properties. \<open>v.name\<close> for a property name that no
  prototype defines (as \<open>bolNumber\<close>, \<open>weight\<close> and \<open>weightType\<close>): the own
  property of an object, \<open>undefined\<close> when the object has none of that name and on any
  other value, and a TypeError on \<open>null\<close> and \<open>undefined\<close>.
\<close>

fun get_prop :: "jsvalue \<Rightarrow> string \<Rightarrow> error + jsvalue" where
  "get_prop JUndefined name = Inl (TypeError_property ''undefined'' name)"
| "get_prop JNull name = Inl (TypeError_property ''null'' name)"
| "get_prop (JObj props) name =
     (case map_of props (str name) of None \<Rightarrow> Inr JUndefined | Some v \<Rightarrow> Inr v)"
| "get_prop _ name = Inr JUndefined"

definition index :: "jsstring list \<Rightarrow> nat \<Rightarrow> jsvalue" where
  \<comment> \<open>\<open>arr[i]\<close> on an array of strings\<close>
  "index arr i = (if i < length arr then JStr (arr ! i) else JUndefined)"

type_synonym byte = "8 word"

text \<open>
  The disk: the files that exist, by path, with their contents. Reading or unlinking a
  path that does not exist throws; unlinking a file that exists removes it. Other
  failures of the disk (permissions, input and output errors) are not modelled.
\<close>

type_synonym filesystem = "jsstring \<rightharpoonup> byte list"

definition existsSync :: "filesystem \<Rightarrow> jsstring \<Rightarrow> bool" where
  "existsSync fs p \<longleftrightarrow> fs p \<noteq> None"

definition readFileSync :: "filesystem \<Rightarrow> jsstring \<Rightarrow> error + byte list" where
  "readFileSync fs p = (case fs p of None \<Rightarrow> Inl (ENOENT ''open'' p) | Some bytes \<Rightarrow> Inr bytes)"

definition unlinkSync :: "filesystem \<Rightarrow> jsstring \<Rightarrow> error + filesystem" where
  "unlinkSync fs p =
     (case fs p of None \<Rightarrow> Inl (ENOENT ''unlink'' p) | Some bytes \<Rightarrow> Inr (fs(p := None)))"

text \<open>\<open>buffer.toString('base64')\<close>: the standard alphabet, padded with \<open>=\<close>.\<close>

definition b64 :: "nat \<Rightarrow> code_unit" where
  "b64 n = str ''ABCDEFGHIJKLMNOPQRSTUVWXYZabcdefghijklmnopqrstuvwxyz0123456789+/'' ! (n mod 64)"

fun base64 :: "byte list \<Rightarrow> jsstring" where
  "base64 [] = []"
| "base64 [a] =
     [b64 (unat a div 4), b64 (unat a mod 4 * 16), of_char CHR ''='', of_char CHR ''='']"
| "base64 [a, b] =
     [b64 (unat a div 4), b64 (unat a mod 4 * 16 + unat b div 16), b64 (unat b mod 16 * 4),
      of_char CHR ''='']"
| "base64 (a # b # c # bytes) =
     [b64 (unat a div 4), b64 (unat a mod 4 * 16 + unat b div 16),
      b64 (unat b mod 16 * 4 + unat c div 64), b64 (unat c mod 64)] @ base64 bytes"

section \<open>The extraction service\<close>

subsection \<open>External collaborators\<close>

text \<open>
  The OCR engine, the hosted language model and the runtime's \<open>JSON.parse\<close> are not
  code of the repository. They are parameters of the model: every theorem holds for
  whatever they return or throw.
  \<^item> \<open>recognize fs path\<close> is \<open>Tesseract.recognize(path, 'eng', ...)\<close> with the
    reading of \<open>data.text\<close>: the recognised text, a string, or a failure. The options
    of the call hold a \<open>logger\<close> and no \<open>errorHandler\<close>. A failure that only rejects
    the awaited promise is \<open>Rejected\<close>: the \<open>try\<close> of the handler catches it. A
    failure that the worker of the library reports, as for a file that is no readable
    image, is \<open>Uncaught\<close>: without an \<open>errorHandler\<close> the library throws it from its
    own message handler, outside the promise, no \<open>try\<close> of the handler sees it and the
    process ends.
  \<^item> \<open>create request\<close> is \<open>openai.chat.completions.create(request)\<close> up to
    \<open>response.choices[0].message.content\<close>: the content (a string, or \<open>null\<close> as
    \<open>None\<close>), or what is thrown on the way.
  \<^item> \<open>JSON_parse text\<close> is \<open>JSON.parse(text)\<close>: the value, or the SyntaxError.
  Console output is not modelled.
\<close>

record chat_request =
  model :: string
  content_text :: jsstring
  content_image_url :: jsstring
  max_tokens :: nat
  temperature :: string

datatype ocr_failure = Rejected error | Uncaught error

record env =
  recognize :: "filesystem \<Rightarrow> jsstring \<Rightarrow> ocr_failure + jsstring"
  create :: "chat_request \<Rightarrow> error + jsstring option"
  JSON_parse :: "jsstring \<Rightarrow> error + jsvalue"

datatype call = Recognize jsstring | Create chat_request

subsection \<open>The instruction and the parsing of the completion\<close>

definition template_lines :: "string list \<Rightarrow> jsstring" where
  \<comment> \<open>consecutive lines of a template literal, each after a line break\<close>
  "template_lines ls = concat (map (\<lambda>l. newline # str l) ls)"

definition prompt :: "jsstring \<Rightarrow> jsstring" where
  \<open>prompt ocrText =
     template_lines
       [''    Analyze this image and the OCR text below to extract BOL (Bill of Lading) information.'',
        ''    '',
        ''    OCR Text:''] @
     newline # str ''    '' @ ocrText @
     template_lines
       [''    '',
        ''    Please extract and return ONLY:'',
        ''    1. BOL Number (Bill of Lading number)'',
        ''    2. Weight - Priority order (return the FIRST one you find):'',
        ''       - Net Weight or Net (highest priority)'',
        ''       - Shipping Weight (second priority)  '',
        ''       - Any other weight including Gross Weight (lowest priority)'',
        ''    3. Weight Type - specify which type was found (e.g., "Net Weight", "Shipping Weight", "Gross Weight", "Weight")'',
        ''    '',
        ''    Return the response in this exact JSON format:'',
        ''    {'',
        ''      "bolNumber": "extracted BOL number or null if not found",'',
        ''      "weight": "extracted weight with units or null if not found",'',
        ''      "weightType": "type of weight found (Net Weight, Shipping Weight, Gross Weight, etc.) or null"'',
        ''    }'',
        ''    '',
        ''    If you cannot find either value, return null for that field.'',
        ''    '']\<close>

definition fence_json_re :: regex where
  \<comment> \<open>\<open>/```json\n?/g\<close>\<close>
  "fence_json_re = lit ''```json'' @ [Opt (Chr newline)]"

definition fence_re :: regex where
  \<comment> \<open>\<open>/```\n?/g\<close>\<close>
  "fence_re = lit ''```'' @ [Opt (Chr newline)]"

definition cleanResult :: "jsstring \<Rightarrow> jsstring" where
  "cleanResult result = trim (replace_all (replace_all result fence_json_re []) fence_re [])"

definition field_re :: "string \<Rightarrow> regex" where
  \<comment> \<open>\<open>/key\s*"([^"]+)"/\<close>\<close>
  "field_re key =
     lit key @ [Star Space, One (Chr quote), Group (Plus (NotChr quote)), One (Chr quote)]"

definition bolNumber_re :: regex where
  \<open>bolNumber_re = field_re ''"bolNumber":''\<close>

definition weight_re :: regex where
  \<open>weight_re = field_re ''"weight":''\<close>

definition weightType_re :: regex where
  \<open>weightType_re = field_re ''"weightType":''\<close>

definition matched :: "jsstring list option \<Rightarrow> jsvalue" where
  \<comment> \<open>\<open>m ? m[1] : null\<close>\<close>
  "matched m = (case m of Some arr \<Rightarrow> index arr 1 | None \<Rightarrow> JNull)"

definition manual_extraction :: "jsstring \<Rightarrow> jsvalue" where
  "manual_extraction result =
     (let bolMatch = match result bolNumber_re;
          weightMatch = match result weight_re;
          weightTypeMatch = match result weightType_re
      in JObj [(str ''bolNumber'', matched bolMatch),
               (str ''weight'', matched weightMatch),
               (str ''weightType'', matched weightTypeMatch)])"

definition parse_result :: "env \<Rightarrow> jsstring option \<Rightarrow> error + jsvalue" where
  \<comment> \<open>the inner \<open>try\<close>/\<open>catch\<close>; on \<open>null\<close> both \<open>result.replace\<close> and, in the handler
      of the exception, \<open>result.match\<close> throw\<close>
  "parse_result e result =
     (case result of
        None \<Rightarrow> Inl (TypeError_property ''null'' ''match'')
      | Some r \<Rightarrow>
          (case JSON_parse e (cleanResult r) of
             Inr v \<Rightarrow> Inr v
           | Inl parseError \<Rightarrow> Inr (manual_extraction r)))"

definition chat_request_of :: "jsstring \<Rightarrow> jsstring \<Rightarrow> chat_request" where
  "chat_request_of prompt_text base64Image =
     \<lparr>model = ''gpt-4o'', content_text = prompt_text,
      content_image_url = str ''data:image/jpeg;base64,'' @ base64Image,
      max_tokens = 300, temperature = ''0.1''\<rparr>"

subsection \<open>\<open>processImageForBOLData\<close>, in \<open>src/server/server.js\<close>\<close>

text \<open>The result, or what is thrown, and the external calls made.\<close>

definition processImageForBOLData ::
  "env \<Rightarrow> filesystem \<Rightarrow> jsstring \<Rightarrow> jsstring \<Rightarrow> (error + jsvalue) \<times> call list" where
  "processImageForBOLData e fs imagePath ocrText =
     (case readFileSync fs imagePath of
        Inl err \<Rightarrow> (Inl err, [])
      | Inr imageBuffer \<Rightarrow>
          (let base64Image = base64 imageBuffer;
               request = chat_request_of (prompt ocrText) base64Image
           in case create e request of
                Inl err \<Rightarrow> (Inl err, [Create request])
              | Inr result \<Rightarrow> (parse_result e result, [Create request])))"

subsection \<open>\<open>processImageForBOLData\<close>, in \<open>src/unnamed/part_001\<close>\<close>

text \<open>
  The same body inside one more \<open>try\<close>, whose handler logs the exception and throws
  it again.
\<close>

definition processImageForBOLData_part_001 ::
  "env \<Rightarrow> filesystem \<Rightarrow> jsstring \<Rightarrow> jsstring \<Rightarrow> (error + jsvalue) \<times> call list" where
  "processImageForBOLData_part_001 e fs imagePath ocrText =
     (let (outcome, calls) =
        (case readFileSync fs imagePath of
           Inl err \<Rightarrow> (Inl err, [])
         | Inr imageBuffer \<Rightarrow>
             (let base64Image = base64 imageBuffer;
                  request = chat_request_of (prompt ocrText) base64Image
              in case create e request of
                   Inl err \<Rightarrow> (Inl err, [Create request])
                 | Inr result \<Rightarrow> (parse_result e result, [Create request])))
      in case outcome of
           Inl err \<Rightarrow> (Inl err, calls)
         | Inr v \<Rightarrow> (Inr v, calls))"

subsection \<open>The handler of \<open>POST /api/process-image\<close>, in \<open>src/server/server.js\<close>\<close>

record upload =
  originalname :: jsstring
  mimetype :: jsstring
  path :: jsstring

record request =
  req_file :: "upload option" \<comment> \<open>\<open>req.file\<close>, as the upload middleware leaves it\<close>

datatype response = Response (status: nat) (body: jsvalue)

text \<open>
  What a run of the handler leaves behind: the response sent (\<open>None\<close> when an exception
  is caught by nothing, the process ends and nothing is sent), the disk, and the external
  calls made, in order. The response, when there is one, is the last step of the run.
\<close>

record outcome =
  response :: "response option"
  files :: filesystem
  calls :: "call list"

definition success_body :: "jsvalue \<Rightarrow> jsstring \<Rightarrow> error + jsvalue" where
  "success_body extractedData ocr_text =
     (case get_prop extractedData ''bolNumber'' of
        Inl err \<Rightarrow> Inl err
      | Inr b \<Rightarrow>
     (case get_prop extractedData ''weight'' of
        Inl err \<Rightarrow> Inl err
      | Inr w \<Rightarrow>
     (case get_prop extractedData ''weightType'' of
        Inl err \<Rightarrow> Inl err
      | Inr t \<Rightarrow>
          Inr (JObj [(str ''success'', JBool True),
                     (str ''data'',
                      JObj [(str ''bolNumber'', b),
                            (str ''weight'', w),
                            (str ''weightType'', t),
                            (str ''rawOcrText'', JStr (substring ocr_text 0 500))])]))))"

definition failure_body :: "error \<Rightarrow> jsvalue" where
  "failure_body err =
     JObj [(str ''error'', JStr (str ''Failed to process image'')),
           (str ''details'', JStr (error_message err))]"

definition on_error :: "error \<Rightarrow> filesystem \<Rightarrow> jsstring \<Rightarrow> call list \<Rightarrow> outcome" where
  \<comment> \<open>the \<open>catch\<close> block of the handler\<close>
  "on_error err fs imagePath cs =
     (if existsSync fs imagePath then
        (case unlinkSync fs imagePath of
           Inl err' \<Rightarrow> \<lparr>response = None, files = fs, calls = cs\<rparr>
         | Inr fs' \<Rightarrow>
             \<lparr>response = Some (Response 500 (failure_body err)), files = fs', calls = cs\<rparr>)
      else \<lparr>response = Some (Response 500 (failure_body err)), files = fs, calls = cs\<rparr>)"

definition process_image :: "env \<Rightarrow> filesystem \<Rightarrow> request \<Rightarrow> outcome" where
  "process_image e fs req =
     (case req_file req of
        None \<Rightarrow>
          \<lparr>response =
             Some (Response 400 (JObj [(str ''error'', JStr (str ''No image file provided''))])),
           files = fs, calls = []\<rparr>
      | Some f \<Rightarrow>
          (let imagePath = path f in
           case recognize e fs imagePath of
             Inl (Rejected err) \<Rightarrow> on_error err fs imagePath [Recognize imagePath]
           | Inl (Uncaught err) \<Rightarrow>
               \<lparr>response = None, files = fs, calls = [Recognize imagePath]\<rparr>
           | Inr ocr_text \<Rightarrow>
               (case processImageForBOLData e fs imagePath ocr_text of
                  (Inl err, cs) \<Rightarrow> on_error err fs imagePath (Recognize imagePath # cs)
                | (Inr extractedData, cs) \<Rightarrow>
                    (case unlinkSync fs imagePath of
                       Inl err \<Rightarrow> on_error err fs imagePath (Recognize imagePath # cs)
                     | Inr fs' \<Rightarrow>
                         (case success_body extractedData ocr_text of
                            Inl err \<Rightarrow> on_error err fs' imagePath (Recognize imagePath # cs)
                          | Inr b \<Rightarrow>
                              \<lparr>response = Some (Response 200 b), files = fs',
                               calls = Recognize imagePath # cs\<rparr>)))))"

subsection \<open>The handler of \<open>POST /api/process-image\<close>, in \<open>src/unnamed/part_001\<close>\<close>

definition process_image_part_001 :: "env \<Rightarrow> filesystem \<Rightarrow> request \<Rightarrow> outcome" where
  "process_image_part_001 e fs req =
     (case req_file req of
        None \<Rightarrow>
          \<lparr>response =
             Some (Response 400 (JObj [(str ''error'', JStr (str ''No image file provided''))])),
           files = fs, calls = []\<rparr>
      | Some f \<Rightarrow>
          (let imagePath = path f in
           case recognize e fs imagePath of
             Inl (Rejected err) \<Rightarrow> on_error err fs imagePath [Recognize imagePath]
           | Inl (Uncaught err) \<Rightarrow>
               \<lparr>response = None, files = fs, calls = [Recognize imagePath]\<rparr>
           | Inr ocr_text \<Rightarrow>
               (case processImageForBOLData_part_001 e fs imagePath ocr_text of
                  (Inl err, cs) \<Rightarrow> on_error err fs imagePath (Recognize imagePath # cs)
                | (Inr extractedData, cs) \<Rightarrow>
                    (case unlinkSync fs imagePath of
                       Inl err \<Rightarrow> on_error err fs imagePath (Recognize imagePath # cs)
                     | Inr fs' \<Rightarrow>
                         (case success_body extractedData ocr_text of
                            Inl err \<Rightarrow> on_error err fs' imagePath (Recognize imagePath # cs)
                          | Inr b \<Rightarrow>
                              \<lparr>response = Some (Response 200 b), files = fs',
                               calls = Recognize imagePath # cs\<rparr>)))))"

section \<open>The upload and display client, in \<open>src/unnamed/part_000\<close>\<close>

text \<open>
  The component's state is the seven \<open>useState\<close> cells. Each handler is a function on
  the state; \<open>processImage\<close> is asynchronous and is modelled in the two parts that run
  without interruption: up to the \<open>fetch\<close>, and from its outcome on. The effects it
  starts (reading the file for the preview, the HTTP request) are returned as data.
\<close>

record client_state =
  bolNumber :: jsstring
  weight :: jsstring
  weightType :: jsstring
  isProcessing :: bool
  dragOver :: bool
  message :: jsstring
  uploadedImage :: "jsstring option"

record File =
  file_name :: jsstring
  file_type :: jsstring
  file_bytes :: "byte list"

record ProcessedData =
  data_bolNumber :: "jsstring option"
  data_weight :: "jsstring option"
  data_weightType :: "jsstring option"
  data_rawOcrText :: jsstring

record ApiResponse =
  success :: "bool option" \<comment> \<open>absent in the error responses of the service\<close>
  data :: "ProcessedData option"
  error :: "jsstring option"

record fetch_request =
  url :: jsstring
  http_method :: string
  form_data :: "(string \<times> File) list" \<comment> \<open>the \<open>FormData\<close> body, sent as multipart form data\<close>

datatype effect = ReadAsDataURL File | Fetch fetch_request

datatype thrown = ErrorObject jsstring | OtherValue

definition startsWith :: "jsstring \<Rightarrow> jsstring \<Rightarrow> bool" where
  "startsWith s p \<longleftrightarrow> take (length p) s = p"

definition or_empty :: "jsstring option \<Rightarrow> jsstring" where
  \<comment> \<open>\<open>v || ''\<close> for a string or \<open>null\<close>\<close>
  "or_empty v = (case v of None \<Rightarrow> [] | Some s \<Rightarrow> s)"

definition falsy :: "jsstring option \<Rightarrow> bool" where
  \<comment> \<open>\<open>!v\<close> for a string or \<open>null\<close>\<close>
  "falsy v \<longleftrightarrow> v = None \<or> v = Some []"

definition processImage_start :: "jsstring \<Rightarrow> File \<Rightarrow> client_state \<Rightarrow> client_state \<times> effect list" where
  \<comment> \<open>\<open>processImage\<close> up to the \<open>await fetch(...)\<close>\<close>
  "processImage_start BACKEND_URL f st =
     (st\<lparr>isProcessing := True,
         message := str ''Processing image...'',
         bolNumber := [],
         weight := []\<rparr>,
      [ReadAsDataURL f,
       Fetch \<lparr>url = BACKEND_URL @ str ''/api/process-image'', http_method = ''POST'',
              form_data = [(''image'', f)]\<rparr>])"

definition reader_onload :: "jsstring option \<Rightarrow> client_state \<Rightarrow> client_state" where
  "reader_onload result st =
     (if falsy result then st else st\<lparr>uploadedImage := result\<rparr>)"

definition failed_message :: "thrown \<Rightarrow> jsstring" where
  "failed_message err =
     str ''Failed to process image: '' @
     (case err of ErrorObject m \<Rightarrow> m | OtherValue \<Rightarrow> str ''Unknown error'')"

definition processImage_finish :: "thrown + ApiResponse \<Rightarrow> client_state \<Rightarrow> client_state" where
  \<comment> \<open>\<open>processImage\<close> from the outcome of \<open>fetch\<close> and \<open>response.json()\<close> on\<close>
  "processImage_finish fetched st =
     (let st' =
        (case fetched of
           Inl err \<Rightarrow> st\<lparr>message := failed_message err\<rparr>
         | Inr result \<Rightarrow>
             if success result = Some True then
               (case data result of
                  None \<Rightarrow>
                    st\<lparr>message :=
                         failed_message
                           (ErrorObject
                              (error_message (TypeError_property ''undefined'' ''bolNumber'')))\<rparr>
                | Some d \<Rightarrow>
                    (let st1 = st\<lparr>bolNumber := or_empty (data_bolNumber d),
                                    weight := or_empty (data_weight d),
                                    weightType := or_empty (data_weightType d),
                                    message := str ''Image processed successfully!''\<rparr>
                     in if falsy (data_bolNumber d) \<and> falsy (data_weight d)
                        then st1\<lparr>message :=
                          str ''No BOL number or weight found in the image. Please try a clearer image.''\<rparr>
                        else st1))
             else st\<lparr>message :=
                       str ''Error: '' @
                       (case error result of None \<Rightarrow> str ''undefined'' | Some m \<Rightarrow> m)\<rparr>)
      in st'\<lparr>isProcessing := False\<rparr>)"

definition handleDrop :: "jsstring \<Rightarrow> File list \<Rightarrow> client_state \<Rightarrow> client_state \<times> effect list" where
  "handleDrop BACKEND_URL dropped st =
     (let st' = st\<lparr>dragOver := False\<rparr> in
      case dropped of
        [] \<Rightarrow> (st', [])
      | f # _ \<Rightarrow>
          if startsWith (file_type f) (str ''image/'')
          then processImage_start BACKEND_URL f st'
          else (st'\<lparr>message := str ''Please drop an image file (PNG, JPG, etc.)''\<rparr>, []))"

definition handleFileInput :: "jsstring \<Rightarrow> File list \<Rightarrow> client_state \<Rightarrow> client_state \<times> effect list" where
  "handleFileInput BACKEND_URL chosen st =
     (case chosen of
        [] \<Rightarrow> (st, [])
      | f # _ \<Rightarrow> processImage_start BACKEND_URL f st)"

definition clearData :: "client_state \<Rightarrow> client_state" where
  "clearData st =
     st\<lparr>bolNumber := [], weight := [], weightType := [], message := [], uploadedImage := None\<rparr>"


section \<open>What a pattern matches\<close>

text \<open>
  The meaning of a pattern, independent of the matcher: the texts an item may consume.
  A pattern matches at the start of \<open>s\<close> when \<open>s\<close> begins with one such text per item.
\<close>

fun item_ok :: "item \<Rightarrow> jsstring \<Rightarrow> bool" where
  "item_ok (One c) seg \<longleftrightarrow> length seg = 1 \<and> list_all (cls_ok c) seg"
| "item_ok (Opt c) seg \<longleftrightarrow> length seg \<le> 1 \<and> list_all (cls_ok c) seg"
| "item_ok (Star c) seg \<longleftrightarrow> list_all (cls_ok c) seg"
| "item_ok (Plus c) seg \<longleftrightarrow> seg \<noteq> [] \<and> list_all (cls_ok c) seg"
| "item_ok (Group i) seg \<longleftrightarrow> item_ok i seg"

text \<open>
  The shape the fallback looks for: after \<open>pre\<close>, the key, any white space, and a
  non-empty value without a double quote between two double quotes.
\<close>

definition field_at :: "jsstring \<Rightarrow> string \<Rightarrow> jsstring \<Rightarrow> jsstring \<Rightarrow> bool" where
  "field_at r key pre val \<longleftrightarrow>
     (\<exists>ws post. r = pre @ str key @ ws @ quote # val @ quote # post \<and>
                list_all is_space ws \<and> val \<noteq> [] \<and> quote \<notin> set val)"

text \<open>
  What is to be recovered for a key from a text: the value of the first place that has
  the shape, or \<open>null\<close> when no place has it.
\<close>

definition recovered :: "jsstring \<Rightarrow> string \<Rightarrow> jsvalue \<Rightarrow> bool" where
  "recovered r key v \<longleftrightarrow>
     (\<exists>pre val. v = JStr val \<and> field_at r key pre val \<and>
        (\<forall>pre' val'. field_at r key pre' val' \<longrightarrow> length pre \<le> length pre')) \<or>
     (v = JNull \<and> (\<forall>pre val. \<not> field_at r key pre val))"

text \<open>The places of a text where \<open>k\<close> occurs.\<close>

definition positions :: "jsstring \<Rightarrow> jsstring \<Rightarrow> nat list" where
  "positions k s = filter (\<lambda>i. prefix k (drop i s)) [0..<Suc (length s)]"

section \<open>Example runs\<close>

definition example_path :: jsstring where
  "example_path = str ''uploads/1-bol.png''"

definition example_fs :: filesystem where
  "example_fs = [example_path \<mapsto> [0x89, 0x50, 0x4E, 0x47]]"

definition example_upload :: upload where
  "example_upload =
     \<lparr>originalname = str ''bol.png'', mimetype = str ''image/png'', path = example_path\<rparr>"

definition example_request :: request where
  "example_request = \<lparr>req_file = Some example_upload\<rparr>"

definition example_ocr_text :: jsstring where
  "example_ocr_text = str ''BOL 123 Net Weight: 500 lbs''"

definition example_json :: jsvalue where
  "example_json =
     JObj [(str ''bolNumber'', JStr (str ''123'')), (str ''weight'', JNull),
           (str ''weightType'', JNull)]"

definition example_JSON_parse :: "jsstring \<Rightarrow> error + jsvalue" where
  \<comment> \<open>\<open>JSON.parse\<close> on the texts of the example runs\<close>
  \<open>example_JSON_parse s =
     (if s = str ''{"bolNumber": "123", "weight": null, "weightType": null}''
      then Inr example_json
      else Inl (Error (str ''Unexpected token'')))\<close>

definition example_env :: "jsstring \<Rightarrow> env" where
  \<comment> \<open>an OCR engine that reads \<open>example_ocr_text\<close> and a model that answers \<open>completion\<close>\<close>
  "example_env completion =
     \<lparr>recognize = (\<lambda>fs p. Inr example_ocr_text),
      create = (\<lambda>request. Inr (Some completion)),
      JSON_parse = example_JSON_parse\<rparr>"

definition unreadable_env :: env where
  \<comment> \<open>an OCR engine whose worker cannot read the image\<close>
  "unreadable_env =
     \<lparr>recognize = (\<lambda>fs p. Inl (Uncaught (Error (str ''Error attempting to read image.'')))),
      create = (\<lambda>request. Inr (Some [])),
      JSON_parse = example_JSON_parse\<rparr>"

definition fenced_completion :: jsstring where
  \<open>fenced_completion =
     str ''```json\<newline>{"bolNumber": "123", "weight": null, "weightType": null}\<newline>```''\<close>

definition prose_completion :: jsstring where
  \<open>prose_completion = str ''Found "bolNumber": "123" and "weight": "" only''\<close>

definition repeated_key_completion :: jsstring where
  \<open>repeated_key_completion = str ''"weight": "" then "weight": "5 lbs"''\<close>

definition example_file :: File where
  "example_file =
     \<lparr>file_name = str ''bol.png'', file_type = str ''image/png'',
      file_bytes = [0x89, 0x50, 0x4E, 0x47]\<rparr>"

definition example_backend :: jsstring where
  "example_backend = str ''http://localhost:5001''"

definition shown_state :: client_state where
  \<comment> \<open>the display after an earlier image was processed\<close>
  "shown_state =
     \<lparr>bolNumber = str ''123'', weight = str ''500 lbs'', weightType = str ''Net Weight'',
      isProcessing = False, dragOver = False,
      message = str ''Image processed successfully!'',
      uploadedImage = Some (str ''data:image/png;base64,iVBORw=='')\<rparr>"

definition nothing_found_response :: ApiResponse where
  "nothing_found_response =
     \<lparr>success = Some True,
      data = Some \<lparr>data_bolNumber = None, data_weight = None, data_weightType = None,
                   data_rawOcrText = str ''illegible''\<rparr>,
      error = None\<rparr>"

section \<open>The matcher computes the meaning of the pattern\<close>

lemma seg_cons_Some:
  "seg_cons seg m = Some (segs, r) \<longleftrightarrow> (\<exists>segs'. m = Some (segs', r) \<and> segs = seg # segs')"
  by (auto simp: seg_cons_def split: option.splits)

lemma seg_extend_Some:
  "seg_extend x m = Some (segs, r) \<longleftrightarrow>
     (\<exists>seg segs'. m = Some (seg # segs', r) \<and> segs = (x # seg) # segs')"
  by (auto simp: seg_extend_def split: option.splits list.splits)

lemma seg_cons_None: "seg_cons seg m = None \<longleftrightarrow> m = None"
  by (auto simp: seg_cons_def split: option.splits)

text \<open>Soundness: a match splits the input into one admissible text per item, and the rest.\<close>

lemma rmatch_sound:
  "rmatch p s = Some (segs, r) \<Longrightarrow> s = concat segs @ r \<and> list_all2 item_ok p segs"
proof (induction p s arbitrary: segs r rule: rmatch.induct)
  case (3 c p x xs)
  then show ?case by (auto simp: seg_cons_Some split: if_splits)
next
  case (4 c p)
  then show ?case by (auto simp: seg_cons_Some)
next
  case (5 c p x xs)
  then show ?case by (auto simp: seg_cons_Some split: if_splits option.splits)
next
  case (6 c p)
  then show ?case by (auto simp: seg_cons_Some)
next
  case (7 c p x xs)
  then show ?case
    by (auto simp: seg_cons_Some seg_extend_Some split: if_splits option.splits)
next
  case (9 c p x xs)
  then show ?case by (auto simp: seg_extend_Some split: if_splits)
next
  case (10 i p s)
  then show ?case by (cases segs) auto
qed simp_all

lemma seg_extend_rmatch_None:
  "seg_extend x (rmatch (i # p) s) = None \<longleftrightarrow> rmatch (i # p) s = None"
proof (cases "rmatch (i # p) s")
  case None
  then show ?thesis by (simp add: seg_extend_def)
next
  case (Some m)
  obtain segs r where m: "m = (segs, r)" by (cases m)
  from rmatch_sound [of "i # p" s segs r] Some m have "segs \<noteq> []" by auto
  with Some m show ?thesis by (cases segs) (auto simp: seg_extend_def)
qed

text \<open>
  Completeness: backtracking loses no match. Whenever the input can be split as the
  pattern asks, in any way at all, the matcher succeeds.
\<close>

lemma rmatch_complete:
  "list_all2 item_ok p segs \<Longrightarrow> s = concat segs @ r \<Longrightarrow> rmatch p s \<noteq> None"
proof (induction p s arbitrary: segs r rule: rmatch.induct)
  case (1 s)
  then show ?case by simp
next
  case (2 c p)
  then show ?case by (auto simp: list_all2_Cons1)
next
  case (3 c p x xs)
  from "3.prems" obtain seg segs' where
    segs: "segs = seg # segs'" and seg: "length seg = 1" "list_all (cls_ok c) seg"
    and rest: "list_all2 item_ok p segs'"
    by (auto simp: list_all2_Cons1)
  from seg obtain y where y: "seg = [y]" by (cases seg) auto
  with "3.prems" segs seg have xy: "y = x" "cls_ok c x" "xs = concat segs' @ r" by auto
  with rest "3.IH" have "rmatch p xs \<noteq> None" by blast
  with xy show ?case by (simp add: seg_cons_None)
next
  case (4 c p)
  then show ?case by (auto simp: list_all2_Cons1 seg_cons_None)
next
  case (5 c p x xs)
  from "5.prems" obtain seg segs' where
    segs: "segs = seg # segs'" and seg: "length seg \<le> 1" "list_all (cls_ok c) seg"
    and rest: "list_all2 item_ok p segs'"
    by (auto simp: list_all2_Cons1)
  show ?case
  proof (cases seg)
    case Nil
    with "5.prems" segs have "x # xs = concat segs' @ r" by simp
    then have eq: "x # xs = concat segs' @ r" .
    show ?thesis
    proof (cases "cls_ok c x")
      case ok: True
      show ?thesis
      proof (cases "rmatch p xs")
        case None
        from "5.IH"(2) [OF ok None rest eq] ok None show ?thesis
          by (simp add: seg_cons_None)
      next
        case (Some m)
        with ok show ?thesis by (simp add: seg_cons_None)
      qed
    next
      case False
      from "5.IH"(3) [OF False rest eq] False show ?thesis
        by (simp add: seg_cons_None)
    qed
  next
    case (Cons y ys)
    with seg have ys: "ys = []" by simp
    with Cons "5.prems" segs seg have xy: "y = x" "cls_ok c x" "xs = concat segs' @ r"
      by auto
    with rest "5.IH"(1) have "rmatch p xs \<noteq> None" by blast
    with xy show ?thesis by (auto simp: seg_cons_def split: option.splits)
  qed
next
  case (6 c p)
  then show ?case by (auto simp: list_all2_Cons1 seg_cons_None)
next
  case (7 c p x xs)
  from "7.prems" obtain seg segs' where
    segs: "segs = seg # segs'" and seg: "list_all (cls_ok c) seg"
    and rest: "list_all2 item_ok p segs'"
    by (auto simp: list_all2_Cons1)
  show ?case
  proof (cases seg)
    case Nil
    with "7.prems" segs have "x # xs = concat segs' @ r" by simp
    then have eq: "x # xs = concat segs' @ r" .
    show ?thesis
    proof (cases "cls_ok c x")
      case ok: True
      show ?thesis
      proof (cases "rmatch (Star c # p) xs")
        case None
        from "7.IH"(2) [OF ok None rest eq] ok None show ?thesis
          by (simp add: seg_cons_None)
      next
        case (Some m)
        with ok seg_extend_rmatch_None [of x "Star c" p xs] show ?thesis by simp
      qed
    next
      case False
      from "7.IH"(3) [OF False rest eq] False show ?thesis
        by (simp add: seg_cons_None)
    qed
  next
    case (Cons y ys)
    with "7.prems" segs seg have xy: "y = x" "cls_ok c x" "xs = concat (ys # segs') @ r"
      "list_all (cls_ok c) ys" by auto
    from xy(4) rest have "list_all2 item_ok (Star c # p) (ys # segs')" by simp
    with xy "7.IH"(1) have "rmatch (Star c # p) xs \<noteq> None" by blast
    with xy show ?thesis
      using seg_extend_rmatch_None [of x "Star c" p xs] by (auto split: option.splits)
  qed
next
  case (8 c p)
  then show ?case by (auto simp: list_all2_Cons1)
next
  case (9 c p x xs)
  from "9.prems" obtain seg segs' where
    segs: "segs = seg # segs'" and seg: "seg \<noteq> []" "list_all (cls_ok c) seg"
    and rest: "list_all2 item_ok p segs'"
    by (auto simp: list_all2_Cons1)
  from seg obtain y ys where yys: "seg = y # ys" by (cases seg) auto
  with "9.prems" segs seg have xy: "y = x" "cls_ok c x" "xs = concat (ys # segs') @ r"
      "list_all (cls_ok c) ys" by auto
  from xy(4) rest have "list_all2 item_ok (Star c # p) (ys # segs')" by simp
  with xy "9.IH" have "rmatch (Star c # p) xs \<noteq> None" by blast
  with xy show ?case by (simp add: seg_extend_rmatch_None)
next
  case (10 i p s)
  then show ?case by (auto simp: list_all2_Cons1)
qed

section \<open>The field patterns\<close>

lemma lit_ok:
  "list_all2 item_ok (lit k @ p) segs \<longleftrightarrow>
     (\<exists>segs'. segs = map (\<lambda>c. [of_char c]) k @ segs' \<and> list_all2 item_ok p segs')"
proof (induction k arbitrary: segs)
  case Nil
  then show ?case by (simp add: lit_def)
next
  case (Cons c k)
  have "list_all2 item_ok (lit (c # k) @ p) segs \<longleftrightarrow>
        (\<exists>seg rest. segs = seg # rest \<and> seg = [of_char c] \<and> list_all2 item_ok (lit k @ p) rest)"
    by (auto simp: lit_def list_all2_Cons1 length_Suc_conv)
  also have "\<dots> \<longleftrightarrow> (\<exists>segs'. segs = map (\<lambda>c. [of_char c]) (c # k) @ segs' \<and> list_all2 item_ok p segs')"
    by (auto simp: Cons.IH)
  finally show ?case .
qed

lemma concat_lit_segs: "concat (map (\<lambda>c. [of_char c]) k) = str k"
  by (induction k) (simp_all add: str_def)

lemma groups_lit: "groups (lit k @ p) (map (\<lambda>c. [of_char c]) k @ segs) = groups p segs"
  by (induction k) (simp_all add: lit_def)

lemma all_not_quote: "list_all (cls_ok (NotChr quote)) val \<longleftrightarrow> quote \<notin> set val"
  by (induction val) auto

lemma all_space: "list_all (cls_ok Space) ws \<longleftrightarrow> list_all is_space ws"
  by (induction ws) auto

lemma field_re_ok:
  "list_all2 item_ok (field_re k) segs \<longleftrightarrow>
     (\<exists>ws val. segs = map (\<lambda>c. [of_char c]) k @ [ws, [quote], val, [quote]] \<and>
               list_all is_space ws \<and> val \<noteq> [] \<and> quote \<notin> set val)"
  unfolding field_re_def lit_ok
  by (auto simp: list_all2_Cons1 length_Suc_conv all_not_quote all_space)

lemma field_re_groups:
  "groups (field_re k) (map (\<lambda>c. [of_char c]) k @ [ws, q, val, q']) = [val]"
  unfolding field_re_def groups_lit by simp

text \<open>A match of a field pattern at the start of a text.\<close>

lemma rmatch_field_re:
  assumes "rmatch (field_re k) s = Some (segs, rest)"
  shows "\<exists>ws val. s = str k @ ws @ quote # val @ quote # rest \<and> list_all is_space ws \<and>
           val \<noteq> [] \<and> quote \<notin> set val \<and> groups (field_re k) segs = [val]"
proof -
  from rmatch_sound [OF assms] have s: "s = concat segs @ rest"
    and ok: "list_all2 item_ok (field_re k) segs" by simp_all
  from ok obtain ws val where segs: "segs = map (\<lambda>c. [of_char c]) k @ [ws, [quote], val, [quote]]"
    and c: "list_all is_space ws" "val \<noteq> []" "quote \<notin> set val"
    unfolding field_re_ok by blast
  from s segs have "s = str k @ ws @ quote # val @ quote # rest"
    by (simp add: str_def)
  with c segs show ?thesis by (auto simp: field_re_groups)
qed

lemma rmatch_field_re_complete:
  assumes "list_all is_space ws" "val \<noteq> []" "quote \<notin> set val"
  shows "rmatch (field_re k) (str k @ ws @ quote # val @ quote # rest) \<noteq> None"
proof (rule rmatch_complete)
  show "list_all2 item_ok (field_re k) (map (\<lambda>c. [of_char c]) k @ [ws, [quote], val, [quote]])"
    unfolding field_re_ok using assms by blast
  show "str k @ ws @ quote # val @ quote # rest =
        concat (map (\<lambda>c. [of_char c]) k @ [ws, [quote], val, [quote]]) @ rest"
    by (simp add: str_def)
qed

text \<open>\<open>match\<close> finds the leftmost position where the pattern matches.\<close>

lemma match_Some:
  "match s p = Some arr \<Longrightarrow>
     \<exists>pre t segs rest. s = pre @ t \<and> rmatch p t = Some (segs, rest) \<and>
        arr = concat segs # groups p segs \<and>
        (\<forall>pre' t'. s = pre' @ t' \<and> length pre' < length pre \<longrightarrow> rmatch p t' = None)"
proof (induction s)
  case Nil
  then obtain segs rest where m: "rmatch p [] = Some (segs, rest)"
    and arr: "arr = concat segs # groups p segs"
    by (auto split: option.splits)
  then show ?case
    by (intro exI [of _ "[]"] exI [of _ segs] exI [of _ rest]) simp
next
  case (Cons x xs)
  show ?case
  proof (cases "rmatch p (x # xs)")
    case (Some m)
    obtain segs rest where m: "m = (segs, rest)" by (cases m)
    with Some Cons.prems have arr: "arr = concat segs # groups p segs" by simp
    with Some m show ?thesis
      by (intro exI [of _ "[]"] exI [of _ "x # xs"] exI [of _ segs] exI [of _ rest]) simp
  next
    case None
    with Cons.prems have "match xs p = Some arr" by simp
    from Cons.IH [OF this] obtain pre t segs rest where
      xs: "xs = pre @ t"
      and m: "rmatch p t = Some (segs, rest)"
      and arr: "arr = concat segs # groups p segs"
      and left: "\<forall>pre' t'. xs = pre' @ t' \<and> length pre' < length pre \<longrightarrow> rmatch p t' = None"
      by blast
    have "\<forall>pre' t'. x # xs = pre' @ t' \<and> length pre' < length (x # pre) \<longrightarrow> rmatch p t' = None"
    proof (intro allI impI)
      fix pre' t'
      assume a: "x # xs = pre' @ t' \<and> length pre' < length (x # pre)"
      show "rmatch p t' = None"
      proof (cases pre')
        case Nil
        with a None show ?thesis by simp
      next
        case (Cons y ys)
        with a have "xs = ys @ t' \<and> length ys < length pre" by simp
        with left show ?thesis by blast
      qed
    qed
    with xs m arr show ?thesis
      by (intro exI [of _ "x # pre"] exI [of _ t] exI [of _ segs] exI [of _ rest]) simp
  qed
qed

lemma match_None:
  "match s p = None \<Longrightarrow> s = pre @ t \<Longrightarrow> rmatch p t = None"
proof (induction s arbitrary: pre)
  case Nil
  then show ?case by (auto split: option.splits)
next
  case (Cons x xs)
  from Cons.prems(1) have here: "rmatch p (x # xs) = None" and later: "match xs p = None"
    by (auto split: option.splits)
  show ?case
  proof (cases pre)
    case Nil
    with Cons.prems(2) here show ?thesis by simp
  next
    case (Cons y ys)
    with Cons.prems(2) have "xs = ys @ t" by simp
    from Cons.IH [OF later this] show ?thesis .
  qed
qed

lemma field_at_rmatch:
  assumes "field_at r k pre val"
  shows "\<exists>t. r = pre @ t \<and> rmatch (field_re k) t \<noteq> None"
proof -
  from assms obtain ws post where r: "r = pre @ str k @ ws @ quote # val @ quote # post"
    and c: "list_all is_space ws" "val \<noteq> []" "quote \<notin> set val"
    unfolding field_at_def by blast
  from rmatch_field_re_complete [OF c] r show ?thesis by blast
qed

text \<open>What the fallback reports for one field.\<close>

lemma matched_recovered: "recovered r k (matched (match r (field_re k)))"
proof (cases "match r (field_re k)")
  case None
  have "\<not> field_at r k pre val" for pre val
  proof
    assume "field_at r k pre val"
    from field_at_rmatch [OF this] obtain t where t: "r = pre @ t"
      and some: "rmatch (field_re k) t \<noteq> None"
      by blast
    from match_None [OF None t] some show False by simp
  qed
  with None show ?thesis by (simp add: recovered_def matched_def)
next
  case (Some arr)
  from match_Some [OF Some] obtain pre t segs rest where
    r: "r = pre @ t"
    and m: "rmatch (field_re k) t = Some (segs, rest)"
    and arr: "arr = concat segs # groups (field_re k) segs"
    and left: "\<forall>pre' t'. r = pre' @ t' \<and> length pre' < length pre \<longrightarrow> rmatch (field_re k) t' = None"
    by blast
  from rmatch_field_re [OF m] obtain ws val where
    t: "t = str k @ ws @ quote # val @ quote # rest"
    and c: "list_all is_space ws" "val \<noteq> []" "quote \<notin> set val"
    and g: "groups (field_re k) segs = [val]"
    by blast
  from r t c have at: "field_at r k pre val" unfolding field_at_def by blast
  have least: "length pre \<le> length pre'" if "field_at r k pre' val'" for pre' val'
  proof (rule ccontr)
    assume "\<not> length pre \<le> length pre'"
    then have lt: "length pre' < length pre" by simp
    from field_at_rmatch [OF that] obtain t' where t': "r = pre' @ t'"
      and some: "rmatch (field_re k) t' \<noteq> None"
      by blast
    from left t' lt have "rmatch (field_re k) t' = None" by simp
    with some show False by simp
  qed
  from arr g have "matched (Some arr) = JStr val" by (simp add: matched_def index_def)
  with at least Some show ?thesis unfolding recovered_def by auto
qed

lemma quote_not_space: "\<not> is_space quote"
  by (simp add: is_space_def quote_def)

lemma spaces_then_quote:
  assumes "list_all is_space ws" "list_all is_space ws'" "ws @ quote # a = ws' @ quote # b"
  shows "ws = ws' \<and> a = b"
proof -
  have "takeWhile is_space (ws @ quote # a) = ws"
    using assms(1) quote_not_space by (simp add: takeWhile_tail list_all_iff)
  moreover have "takeWhile is_space (ws' @ quote # b) = ws'"
    using assms(2) quote_not_space by (simp add: takeWhile_tail list_all_iff)
  ultimately have "ws = ws'" using assms(3) by simp
  with assms(3) show ?thesis by simp
qed

lemma field_at_position:
  assumes "field_at r k pre val"
  shows "length pre \<in> set (positions (str k) r)"
proof -
  from assms obtain ws post where r: "r = pre @ str k @ ws @ quote # val @ quote # post"
    unfolding field_at_def by blast
  then have "prefix (str k) (drop (length pre) r)" by simp
  moreover from r have "length pre < length r" by simp
  ultimately show ?thesis by (auto simp: positions_def)
qed

lemma matched_not_empty: "matched (match r (field_re k)) \<noteq> JStr []"
  using matched_recovered [of r k] by (auto simp: recovered_def field_at_def)

lemma empty_value_fails:
  assumes ws: "list_all is_space ws"
  shows "rmatch (field_re k) (str k @ ws @ quote # quote # post) = None"
proof (rule ccontr)
  assume "rmatch (field_re k) (str k @ ws @ quote # quote # post) \<noteq> None"
  then obtain segs rest where
    "rmatch (field_re k) (str k @ ws @ quote # quote # post) = Some (segs, rest)"
    by auto
  from rmatch_field_re [OF this] obtain ws' val where
    eq: "str k @ ws @ quote # quote # post = str k @ ws' @ quote # val @ quote # rest"
    and c: "list_all is_space ws'" "val \<noteq> []" "quote \<notin> set val"
    by blast
  from eq have "ws @ quote # quote # post = ws' @ quote # val @ quote # rest" by simp
  from spaces_then_quote [OF ws c(1) this] have "quote # post = val @ quote # rest" by simp
  with c(2,3) show False by (cases val) auto
qed

lemma empty_value_not_matched:
  assumes r: "r = pre @ str k @ ws @ quote # quote # post"
    and ws: "list_all is_space ws"
    and once: "positions (str k) r = [length pre]"
  shows "matched (match r (field_re k)) = JNull"
proof -
  have "\<not> field_at r k pre' val" for pre' val
  proof
    assume at: "field_at r k pre' val"
    from field_at_position [OF at] once have len: "length pre' = length pre" by simp
    from at obtain ws' post' where
      r': "r = pre' @ str k @ ws' @ quote # val @ quote # post'"
      and c: "list_all is_space ws'" "val \<noteq> []" "quote \<notin> set val"
      unfolding field_at_def by blast
    from r r' len have "ws @ quote # quote # post = ws' @ quote # val @ quote # post'"
      by simp
    from spaces_then_quote [OF ws c(1) this] have "quote # post = val @ quote # post'" by simp
    with c(2) have "hd val = quote" by (cases val) auto
    with c(2,3) show False by (cases val) auto
  qed
  with matched_recovered [of r k] show ?thesis by (simp add: recovered_def)
qed

section \<open>Facts about the example runs\<close>

lemma example_fs_path: "example_fs example_path = Some [0x89, 0x50, 0x4E, 0x47]"
  by (simp add: example_fs_def)

lemma example_create:
  "create (example_env completion) request = Inr (Some completion)"
  by (simp add: example_env_def)


lemma prose_clean:
  \<open>cleanResult prose_completion = str ''Found "bolNumber": "123" and "weight": "" only''\<close>
  by code_simp

lemma prose_not_json:
  "JSON_parse (example_env prose_completion) (cleanResult prose_completion) =
     Inl (Error (str ''Unexpected token''))"
  unfolding prose_clean by (simp add: example_env_def example_JSON_parse_def str_def)

lemma prose_extraction:
  "fst (processImageForBOLData (example_env prose_completion) example_fs example_path
          example_ocr_text) =
   Inr (JObj [(str ''bolNumber'', JStr (str ''123'')), (str ''weight'', JNull),
              (str ''weightType'', JNull)])"
  by code_simp

lemma prose_weight_position:
  \<open>positions (str ''"weight":'') prose_completion =
     [length (str ''Found "bolNumber": "123" and '')]\<close>
  by code_simp

lemma example_run:
  "response (process_image (example_env fenced_completion) example_fs example_request) =
     Some (Response 200
       (JObj [(str ''success'', JBool True),
              (str ''data'',
               JObj [(str ''bolNumber'', JStr (str ''123'')),
                     (str ''weight'', JNull),
                     (str ''weightType'', JNull),
                     (str ''rawOcrText'', JStr example_ocr_text)])]))"
  by code_simp

section \<open>The request handler\<close>

lemma on_error_files: "files (on_error err fs p cs) p = None"
  by (auto simp: on_error_def existsSync_def unlinkSync_def split: option.splits)

lemma on_error_response:
  "\<exists>r. response (on_error err fs p cs) = Some r \<and> status r = 500"
  by (auto simp: on_error_def existsSync_def unlinkSync_def split: option.splits)

lemma on_error_calls: "calls (on_error err fs p cs) = cs"
  by (auto simp: on_error_def existsSync_def unlinkSync_def split: option.splits)

text \<open>
  C5. A request with no file attached is answered with status 400 and the error
  \<open>No image file provided\<close>; no external call is made (neither the OCR engine nor the
  model is invoked) and the disk is left as it was.
\<close>

theorem no_file_is_rejected:
  assumes "req_file req = None"
  shows "response (process_image e fs req) =
           Some (Response 400 (JObj [(str ''error'', JStr (str ''No image file provided''))])) \<and>
         calls (process_image e fs req) = [] \<and>
         files (process_image e fs req) = fs"
  using assms by (simp add: process_image_def)

theorem no_file_is_rejected_witness:
  "req_file \<lparr>req_file = None\<rparr> = None \<and>
   response (process_image (example_env prose_completion) example_fs \<lparr>req_file = None\<rparr>) =
     Some (Response 400 (JObj [(str ''error'', JStr (str ''No image file provided''))])) \<and>
   calls (process_image (example_env prose_completion) example_fs \<lparr>req_file = None\<rparr>) = []"
  using no_file_is_rejected [of "\<lparr>req_file = None\<rparr>" "example_env prose_completion" example_fs]
  by simp

text \<open>
  When the recognition does not fail in the worker of the library, every run of the
  handler on a request with a file ends with a response, of status 200 or 500, and the
  uploaded file is off the disk when that response is sent: this holds whether the
  extraction succeeds, the recognition is rejected, the model fails, or any other
  exception is raised inside the \<open>try\<close>.
\<close>

lemma upload_is_deleted_when_caught:
  assumes "req_file req = Some f"
    and "\<forall>err. recognize e fs (path f) \<noteq> Inl (Uncaught err)"
  shows "files (process_image e fs req) (path f) = None \<and>
         (\<exists>r. response (process_image e fs req) = Some r \<and>
              (status r = 200 \<or> status r = 500))"
proof
  show "files (process_image e fs req) (path f) = None"
    using assms
    by (auto simp: process_image_def Let_def on_error_files unlinkSync_def
             split: sum.splits prod.splits option.splits ocr_failure.splits)
  have "\<exists>r. response (on_error err fs' p cs) = Some r \<and> (status r = 200 \<or> status r = 500)"
    for err fs' p cs
    using on_error_response [of err fs' p cs] by blast
  then show "\<exists>r. response (process_image e fs req) = Some r \<and>
                (status r = 200 \<or> status r = 500)"
    using assms
    by (simp add: process_image_def Let_def
             split: sum.splits prod.splits option.splits ocr_failure.splits)
qed

text \<open>
  C4. The claim asks that after every outcome of a request that reached the pipeline, a
  failed extraction and an unexpected exception included, the upload is off the disk
  when the response is returned. An upload that the worker of the OCR library cannot
  read (the four bytes 89 50 4E 47, sent as \<open>image/png\<close>) makes the recognition fail
  where the \<open>try\<close> of the handler does not catch it: the \<open>catch\<close> block that unlinks
  the file never runs, no response is sent, and the upload is still on the disk. The
  handler of \<open>src/unnamed/part_001\<close> does the same.
\<close>

theorem failed_recognition_leaves_upload:
  "req_file example_request = Some example_upload \<and>
   example_fs (path example_upload) = Some [0x89, 0x50, 0x4E, 0x47] \<and>
   response (process_image unreadable_env example_fs example_request) = None \<and>
   files (process_image unreadable_env example_fs example_request) (path example_upload) =
     Some [0x89, 0x50, 0x4E, 0x47] \<and>
   response (process_image_part_001 unreadable_env example_fs example_request) = None \<and>
   files (process_image_part_001 unreadable_env example_fs example_request)
     (path example_upload) = Some [0x89, 0x50, 0x4E, 0x47]"
  by (simp add: process_image_def process_image_part_001_def unreadable_env_def
        example_request_def example_upload_def example_fs_def)

lemma part_001_same: "processImageForBOLData_part_001 = processImageForBOLData"
  by (intro ext)
     (auto simp: processImageForBOLData_part_001_def processImageForBOLData_def Let_def
           split: sum.splits prod.splits)

text \<open>
  C10. The two variants of the service behave alike: \<open>processImageForBOLData\<close> of
  \<open>src/unnamed/part_001\<close> returns (or throws) what the one of \<open>src/server/server.js\<close>
  does and makes the same external calls, and the two handlers leave the same response,
  the same disk and the same calls.
\<close>

theorem variants_agree:
  "processImageForBOLData_part_001 e fs imagePath ocrText =
     processImageForBOLData e fs imagePath ocrText \<and>
   process_image_part_001 e fs req = process_image e fs req"
  unfolding process_image_part_001_def process_image_def part_001_same by simp

lemma substring_from_start: "substring s 0 n = take n s"
  by (simp add: substring_def Let_def min_def)

lemma success_body_data:
  "success_body v t = Inr b \<Longrightarrow>
     \<exists>d. get_prop b ''data'' = Inr d \<and> get_prop d ''rawOcrText'' = Inr (JStr (take 500 t))"
  by (auto simp: success_body_def substring_from_start str_def split: sum.splits)

lemma substring_truncates: "n \<le> length s \<Longrightarrow> length (substring s 0 n) = n"
  by (simp add: substring_from_start)

text \<open>
  C1. Whenever the handler answers with status 200, the request carried a file, the OCR
  engine returned a text for it, and the \<open>rawOcrText\<close> of the response is the first
  500 code units of that text (the whole text when it is shorter), so its length is at
  most 500. This does not depend on how the fields were extracted: the statement covers
  the strict parse and the fallback alike.
\<close>

theorem rawOcrText_is_first_500:
  assumes "response (process_image e fs req) = Some (Response 200 b)"
  shows "\<exists>f ocr_text d.
           req_file req = Some f \<and> recognize e fs (path f) = Inr ocr_text \<and>
           get_prop b ''data'' = Inr d \<and>
           get_prop d ''rawOcrText'' = Inr (JStr (take 500 ocr_text)) \<and>
           length (take 500 ocr_text) \<le> 500"
proof -
  have no: "response (on_error err fs' p cs) \<noteq> Some (Response 200 b)" for err fs' p cs
    using on_error_response [of err fs' p cs] by auto
  from assms obtain f where f: "req_file req = Some f"
    by (cases "req_file req") (auto simp: process_image_def)
  from assms f no obtain t where t: "recognize e fs (path f) = Inr t"
    by (cases "recognize e fs (path f)")
       (auto simp: process_image_def Let_def split: ocr_failure.splits)
  from assms f t no obtain v where "success_body v t = Inr b"
    by (auto simp: process_image_def Let_def split: sum.splits prod.splits)
  from success_body_data [OF this] f t show ?thesis by auto
qed

theorem rawOcrText_is_first_500_witness:
  "response (process_image (example_env fenced_completion) example_fs example_request) =
     Some (Response 200
       (JObj [(str ''success'', JBool True),
              (str ''data'',
               JObj [(str ''bolNumber'', JStr (str ''123'')),
                     (str ''weight'', JNull),
                     (str ''weightType'', JNull),
                     (str ''rawOcrText'', JStr example_ocr_text)])])) \<and>
   (\<exists>f ocr_text d.
      req_file example_request = Some f \<and>
      recognize (example_env fenced_completion) example_fs (path f) = Inr ocr_text \<and>
      get_prop
        (JObj [(str ''success'', JBool True),
               (str ''data'',
                JObj [(str ''bolNumber'', JStr (str ''123'')),
                      (str ''weight'', JNull),
                      (str ''weightType'', JNull),
                      (str ''rawOcrText'', JStr example_ocr_text)])]) ''data'' = Inr d \<and>
      get_prop d ''rawOcrText'' = Inr (JStr (take 500 ocr_text)) \<and>
      length (take 500 ocr_text) \<le> 500)"
  using rawOcrText_is_first_500 [OF example_run] example_run by blast

section \<open>The parsing of the completion\<close>

text \<open>
  A completion without content (\<open>null\<close>) is the one case where the parsing throws:
  the exception of \<open>result.replace\<close> is caught, and \<open>result.match\<close> throws again.
\<close>

lemma null_content_throws:
  assumes "fs imagePath = Some imageBuffer"
    and "create e (chat_request_of (prompt ocrText) (base64 imageBuffer)) = Inr None"
  shows "fst (processImageForBOLData e fs imagePath ocrText) =
           Inl (TypeError_property ''null'' ''match'')"
  using assms
  by (simp add: processImageForBOLData_def readFileSync_def Let_def parse_result_def)

lemma fallback_result:
  assumes "fs imagePath = Some imageBuffer"
    and "create e (chat_request_of (prompt ocrText) (base64 imageBuffer)) = Inr (Some r)"
    and "JSON_parse e (cleanResult r) = Inl parseError"
  shows "fst (processImageForBOLData e fs imagePath ocrText) =
          Inr (JObj [(str ''bolNumber'', matched (match r bolNumber_re)),
                     (str ''weight'', matched (match r weight_re)),
                     (str ''weightType'', matched (match r weightType_re))])"
  using assms
  by (simp add: processImageForBOLData_def readFileSync_def Let_def parse_result_def
        manual_extraction_def)



text \<open>
  C3. When the completion is not valid JSON after the stripping, \<open>processImageForBOLData\<close>
  does not throw: it returns an object with the three fields, each found on its own by
  its pattern in the completion. A field is the value of the first place of the text
  that has the shape \<open>"field": "value"\<close>, and it is \<open>null\<close>, for that field only, when
  no place of the text has the shape.
\<close>

theorem fallback_recovers_each_field:
  assumes "fs imagePath = Some imageBuffer"
    and "create e (chat_request_of (prompt ocrText) (base64 imageBuffer)) = Inr (Some r)"
    and "JSON_parse e (cleanResult r) = Inl parseError"
  shows \<open>\<exists>b w t.
           fst (processImageForBOLData e fs imagePath ocrText) =
             Inr (JObj [(str ''bolNumber'', b), (str ''weight'', w), (str ''weightType'', t)]) \<and>
           b = matched (match r bolNumber_re) \<and> recovered r ''"bolNumber":'' b \<and>
           w = matched (match r weight_re) \<and> recovered r ''"weight":'' w \<and>
           t = matched (match r weightType_re) \<and> recovered r ''"weightType":'' t\<close>
  using assms fallback_result [of fs imagePath imageBuffer e ocrText r parseError]
  by (simp add: bolNumber_re_def weight_re_def weightType_re_def matched_recovered)

theorem fallback_recovers_each_field_witness:
  \<open>example_fs example_path = Some [0x89, 0x50, 0x4E, 0x47] \<and>
   JSON_parse (example_env prose_completion) (cleanResult prose_completion) =
     Inl (Error (str ''Unexpected token'')) \<and>
   fst (processImageForBOLData (example_env prose_completion) example_fs example_path
          example_ocr_text) =
     Inr (JObj [(str ''bolNumber'', JStr (str ''123'')), (str ''weight'', JNull),
                (str ''weightType'', JNull)]) \<and>
   recovered prose_completion ''"bolNumber":'' (JStr (str ''123'')) \<and>
   recovered prose_completion ''"weight":'' JNull \<and>
   recovered prose_completion ''"weightType":'' JNull\<close>
  using fallback_recovers_each_field
    [of example_fs example_path _ "example_env prose_completion" example_ocr_text
        prose_completion, OF example_fs_path example_create prose_not_json]
    prose_extraction example_fs_path prose_not_json
  by auto

text \<open>The caller, the handler, then answers with status 200.\<close>

lemma fallback_is_answered:
  assumes "req_file req = Some f"
    and "recognize e fs (path f) = Inr ocr_text"
    and "fs (path f) = Some imageBuffer"
    and "create e (chat_request_of (prompt ocr_text) (base64 imageBuffer)) = Inr (Some r)"
    and "JSON_parse e (cleanResult r) = Inl parseError"
  shows "\<exists>b. response (process_image e fs req) = Some (Response 200 b)"
  using assms
  by (simp add: process_image_def processImageForBOLData_def readFileSync_def Let_def
        parse_result_def manual_extraction_def unlinkSync_def success_body_def str_def)

text \<open>
  C9, as amended. In the fallback the patterns are matched against the completion as the
  model returned it, not against the stripped text, in both variants of the service:
  each field is what is to be recovered from the raw text. A key followed by an empty
  value (\<open>"weight": ""\<close>) does not match the pattern of its field at that place, since
  the pattern asks for one character at least. So no field is ever reported as the empty
  string, and a field whose key occurs only once in the text, with an empty value, is
  reported as \<open>null\<close>.
\<close>

theorem fallback_reads_raw_text:
  assumes "fs imagePath = Some imageBuffer"
    and "create e (chat_request_of (prompt ocrText) (base64 imageBuffer)) = Inr (Some r)"
    and "JSON_parse e (cleanResult r) = Inl parseError"
  shows \<open>fst (processImageForBOLData e fs imagePath ocrText) =
           Inr (JObj [(str ''bolNumber'', matched (match r (field_re ''"bolNumber":''))),
                      (str ''weight'', matched (match r (field_re ''"weight":''))),
                      (str ''weightType'', matched (match r (field_re ''"weightType":'')))]) \<and>
         fst (processImageForBOLData_part_001 e fs imagePath ocrText) =
           fst (processImageForBOLData e fs imagePath ocrText) \<and>
         recovered r ''"bolNumber":'' (matched (match r (field_re ''"bolNumber":''))) \<and>
         recovered r ''"weight":'' (matched (match r (field_re ''"weight":''))) \<and>
         recovered r ''"weightType":'' (matched (match r (field_re ''"weightType":''))) \<and>
         matched (match r (field_re key)) \<noteq> JStr [] \<and>
         (list_all is_space ws \<longrightarrow>
            rmatch (field_re key) (str key @ ws @ quote # quote # post) = None) \<and>
         (r = pre @ str key @ ws @ quote # quote # post \<and> list_all is_space ws \<and>
          positions (str key) r = [length pre] \<longrightarrow>
            matched (match r (field_re key)) = JNull)\<close>
proof (intro conjI impI)
  show "rmatch (field_re key) (str key @ ws @ quote # quote # post) = None"
    if "list_all is_space ws"
    using that by (rule empty_value_fails)
  show "fst (processImageForBOLData_part_001 e fs imagePath ocrText) =
          fst (processImageForBOLData e fs imagePath ocrText)"
    by (simp add: part_001_same)
  show \<open>fst (processImageForBOLData e fs imagePath ocrText) =
           Inr (JObj [(str ''bolNumber'', matched (match r (field_re ''"bolNumber":''))),
                      (str ''weight'', matched (match r (field_re ''"weight":''))),
                      (str ''weightType'', matched (match r (field_re ''"weightType":'')))])\<close>
    using assms fallback_result [of fs imagePath imageBuffer e ocrText r parseError]
    by (simp add: bolNumber_re_def weight_re_def weightType_re_def)
  show "matched (match r (field_re key)) \<noteq> JStr []"
    by (rule matched_not_empty)
  show \<open>recovered r ''"bolNumber":'' (matched (match r (field_re ''"bolNumber":'')))\<close>
    by (rule matched_recovered)
  show \<open>recovered r ''"weight":'' (matched (match r (field_re ''"weight":'')))\<close>
    by (rule matched_recovered)
  show \<open>recovered r ''"weightType":'' (matched (match r (field_re ''"weightType":'')))\<close>
    by (rule matched_recovered)
  show "matched (match r (field_re key)) = JNull"
    if "r = pre @ str key @ ws @ quote # quote # post \<and> list_all is_space ws \<and>
        positions (str key) r = [length pre]"
    using that empty_value_not_matched [of r pre key ws post] by blast
qed

theorem fallback_reads_raw_text_witness:
  \<open>example_fs example_path = Some [0x89, 0x50, 0x4E, 0x47] \<and>
   JSON_parse (example_env prose_completion) (cleanResult prose_completion) =
     Inl (Error (str ''Unexpected token'')) \<and>
   prose_completion =
     str ''Found "bolNumber": "123" and '' @ str ''"weight":'' @ str '' '' @ quote # quote #
     str '' only'' \<and>
   list_all is_space (str '' '') \<and>
   positions (str ''"weight":'') prose_completion =
     [length (str ''Found "bolNumber": "123" and '')] \<and>
   rmatch (field_re ''"weight":'') (str ''"weight":'' @ str '' '' @ quote # quote # str '' only'') =
     None \<and>
   recovered prose_completion ''"weight":'' JNull \<and>
   matched (match prose_completion (field_re ''"weight":'')) = JNull\<close>
proof -
  have 1: \<open>prose_completion =
     str ''Found "bolNumber": "123" and '' @ str ''"weight":'' @ str '' '' @ quote # quote #
     str '' only''\<close>
    by (simp add: prose_completion_def str_def quote_def)
  have 2: "list_all is_space (str '' '')"
    by (simp add: str_def is_space_def)
  have 3: \<open>positions (str ''"weight":'') prose_completion =
     [length (str ''Found "bolNumber": "123" and '')]\<close>
    by (rule prose_weight_position)
  note th = fallback_reads_raw_text
    [where fs = example_fs and imagePath = example_path
       and e = "example_env prose_completion" and ocrText = example_ocr_text
       and r = prose_completion and key = \<open>''"weight":''\<close>
       and pre = \<open>str ''Found "bolNumber": "123" and ''\<close>
       and ws = \<open>str '' ''\<close> and post = \<open>str '' only''\<close>,
     OF example_fs_path example_create prose_not_json]
  from th 2 have 4: \<open>rmatch (field_re ''"weight":'')
      (str ''"weight":'' @ str '' '' @ quote # quote # str '' only'') = None\<close>
    by blast
  from th 1 2 3 have 5: \<open>matched (match prose_completion (field_re ''"weight":'')) = JNull\<close>
    by blast
  from th have \<open>recovered prose_completion ''"weight":''
      (matched (match prose_completion (field_re ''"weight":'')))\<close>
    by blast
  with 5 have 6: \<open>recovered prose_completion ''"weight":'' JNull\<close>
    by simp
  from 1 2 3 4 5 6 example_fs_path prose_not_json show ?thesis
    by (intro conjI)
qed

text \<open>
  Without the condition that the key occurs only once the statement fails, and so does
  C9 as it was claimed: in a completion where \<open>"weight": ""\<close> is followed by a second
  \<open>"weight": "5 lbs"\<close>, the field is present with an empty value, the pattern fails at
  that place, and the search goes on to the second place: the weight is reported as
  \<open>5 lbs\<close>, not as \<open>null\<close>.
\<close>

theorem repeated_key_is_not_null:
  \<open>example_fs example_path = Some [0x89, 0x50, 0x4E, 0x47] \<and>
   JSON_parse (example_env repeated_key_completion) (cleanResult repeated_key_completion) =
     Inl (Error (str ''Unexpected token'')) \<and>
   repeated_key_completion =
     str ''"weight":'' @ str '' '' @ quote # quote # str '' then "weight": "5 lbs"'' \<and>
   list_all is_space (str '' '') \<and>
   fst (processImageForBOLData (example_env repeated_key_completion) example_fs example_path
          example_ocr_text) =
     Inr (JObj [(str ''bolNumber'', JNull), (str ''weight'', JStr (str ''5 lbs'')),
                (str ''weightType'', JNull)]) \<and>
   JStr (str ''5 lbs'') \<noteq> JNull\<close>
proof -
  have 1: \<open>cleanResult repeated_key_completion = str ''"weight": "" then "weight": "5 lbs"''\<close>
    by code_simp
  have 2: "JSON_parse (example_env repeated_key_completion) (cleanResult repeated_key_completion) =
     Inl (Error (str ''Unexpected token''))"
    unfolding 1 by (simp add: example_env_def example_JSON_parse_def str_def)
  have 3: \<open>repeated_key_completion =
     str ''"weight":'' @ str '' '' @ quote # quote # str '' then "weight": "5 lbs"''\<close>
    by (simp add: repeated_key_completion_def str_def quote_def)
  have 4: "list_all is_space (str '' '')"
    by (simp add: str_def is_space_def)
  have 5: "fst (processImageForBOLData (example_env repeated_key_completion) example_fs
                  example_path example_ocr_text) =
     Inr (JObj [(str ''bolNumber'', JNull), (str ''weight'', JStr (str ''5 lbs'')),
                (str ''weightType'', JNull)])"
    by code_simp
  from example_fs_path 2 3 4 5 show ?thesis by simp
qed

text \<open>
  That the text matched is the raw one can be observed: a value that contains a code
  fence is captured with it, while the stripped text would give the value without.
\<close>

lemma raw_text_differs_from_clean:
  \<open>matched (match (str ''"bolNumber": "AB```CD"'') bolNumber_re) = JStr (str ''AB```CD'') \<and>
   matched (match (cleanResult (str ''"bolNumber": "AB```CD"'')) bolNumber_re) = JStr (str ''ABCD'')\<close>
  by code_simp

section \<open>The instruction\<close>

lemma template_lines_append:
  "template_lines (a @ b) = template_lines a @ template_lines b"
  by (simp add: template_lines_def)

lemma template_lines_sublist:
  "sublist xs ys \<Longrightarrow> sublist (template_lines xs) (template_lines ys)"
  unfolding sublist_def by (force simp: template_lines_append)

lemma sublist_skip_append: "sublist xs zs \<Longrightarrow> sublist xs (ys @ zs)"
  by (simp add: sublist_append)

lemma sublist_skip_Cons: "sublist xs zs \<Longrightarrow> sublist xs (y # zs)"
  by (metis sublist_skip_append append_Cons append_Nil)

lemma embedded_between:
  "\<exists>before after. \<forall>t. a @ n # b @ t @ c = before @ t @ after"
  by (rule exI [of _ "a @ n # b"], rule exI [of _ c]) simp

text \<open>
  C6. Whatever the OCR text, the instruction is a fixed text before it, the OCR text
  itself, unchanged, and a fixed text after it. It contains the priority rule for the
  weight (Net Weight or Net first, Shipping Weight second, any other weight including
  Gross Weight last), the JSON format with the three fields, and the sentence that asks
  for \<open>null\<close> for a field that is not found.
\<close>

theorem prompt_contents:
  \<open>(\<exists>before after. \<forall>ocrText. prompt ocrText = before @ ocrText @ after) \<and>
   sublist (template_lines
     [''    2. Weight - Priority order (return the FIRST one you find):'',
      ''       - Net Weight or Net (highest priority)'',
      ''       - Shipping Weight (second priority)  '',
      ''       - Any other weight including Gross Weight (lowest priority)'']) (prompt ocrText) \<and>
   sublist (template_lines
     [''    Return the response in this exact JSON format:'',
      ''    {'',
      ''      "bolNumber": "extracted BOL number or null if not found",'',
      ''      "weight": "extracted weight with units or null if not found",'',
      ''      "weightType": "type of weight found (Net Weight, Shipping Weight, Gross Weight, etc.) or null"'',
      ''    }'']) (prompt ocrText) \<and>
   sublist (template_lines
     [''    If you cannot find either value, return null for that field.'']) (prompt ocrText)\<close>
proof (intro conjI)
  show "\<exists>before after. \<forall>ocrText. prompt ocrText = before @ ocrText @ after"
    unfolding prompt_def by (rule embedded_between)
next
  show \<open>sublist (template_lines
     [''    2. Weight - Priority order (return the FIRST one you find):'',
      ''       - Net Weight or Net (highest priority)'',
      ''       - Shipping Weight (second priority)  '',
      ''       - Any other weight including Gross Weight (lowest priority)'']) (prompt ocrText)\<close>
    unfolding prompt_def
    by (rule sublist_skip_append, rule sublist_skip_Cons, rule sublist_skip_append,
        rule sublist_skip_append, rule template_lines_sublist) (simp add: sublist_code(3))
next
  show \<open>sublist (template_lines
     [''    Return the response in this exact JSON format:'',
      ''    {'',
      ''      "bolNumber": "extracted BOL number or null if not found",'',
      ''      "weight": "extracted weight with units or null if not found",'',
      ''      "weightType": "type of weight found (Net Weight, Shipping Weight, Gross Weight, etc.) or null"'',
      ''    }'']) (prompt ocrText)\<close>
    unfolding prompt_def
    by (rule sublist_skip_append, rule sublist_skip_Cons, rule sublist_skip_append,
        rule sublist_skip_append, rule template_lines_sublist) (simp add: sublist_code(3))
next
  show \<open>sublist (template_lines
     [''    If you cannot find either value, return null for that field.'']) (prompt ocrText)\<close>
    unfolding prompt_def
    by (rule sublist_skip_append, rule sublist_skip_Cons, rule sublist_skip_append,
        rule sublist_skip_append, rule template_lines_sublist) (simp add: sublist_code(3))
qed

section \<open>The client\<close>

text \<open>
  C8. When the service reports success and both the BOL number and the weight of the
  result are absent, the message left on display is the one saying that nothing was
  found, not the message of success.
\<close>

theorem nothing_found_message:
  assumes "success result = Some True"
    and "data result = Some d"
    and "data_bolNumber d = None"
    and "data_weight d = None"
  shows "message (processImage_finish (Inr result) st) =
           str ''No BOL number or weight found in the image. Please try a clearer image.'' \<and>
         message (processImage_finish (Inr result) st) \<noteq> str ''Image processed successfully!''"
  using assms by (simp add: processImage_finish_def Let_def falsy_def str_def)

theorem nothing_found_message_witness:
  "success nothing_found_response = Some True \<and>
   message (processImage_finish (Inr nothing_found_response) shown_state) =
     str ''No BOL number or weight found in the image. Please try a clearer image.''"
  using nothing_found_message [of nothing_found_response _ shown_state]
  by (simp add: nothing_found_response_def)

text \<open>
  What \<open>processImage\<close> does before the request is answered: it marks the component as
  processing, empties the BOL number and the weight, starts reading the file for the
  preview and sends one request with the file as form data. The weight type is left as
  it was.
\<close>

lemma processImage_start_effects:
  "snd (processImage_start BACKEND_URL f st) =
     [ReadAsDataURL f,
      Fetch \<lparr>url = BACKEND_URL @ str ''/api/process-image'', http_method = ''POST'',
             form_data = [(''image'', f)]\<rparr>] \<and>
   isProcessing (fst (processImage_start BACKEND_URL f st)) \<and>
   bolNumber (fst (processImage_start BACKEND_URL f st)) = [] \<and>
   weight (fst (processImage_start BACKEND_URL f st)) = [] \<and>
   weightType (fst (processImage_start BACKEND_URL f st)) = weightType st"
  by (simp add: processImage_start_def)

lemma clearData_clears_weightType: "weightType (clearData st) = []"
  by (simp add: clearData_def)

text \<open>
  C7. The claim asks that accepting a file clears the BOL number, the weight and the
  weight type. On a display that shows the result of an earlier image, \<open>processImage\<close>
  empties the BOL number and the weight but leaves the weight type \<open>Net Weight\<close>, and
  the stale weight type is still shown when the request then fails.
\<close>

theorem weightType_is_not_cleared:
  "weightType (fst (processImage_start example_backend example_file shown_state)) = str ''Net Weight'' \<and>
   bolNumber (fst (processImage_start example_backend example_file shown_state)) = [] \<and>
   weight (fst (processImage_start example_backend example_file shown_state)) = [] \<and>
   weightType (processImage_finish (Inl OtherValue)
      (fst (processImage_start example_backend example_file shown_state))) = str ''Net Weight''"
  by (simp add: processImage_start_def processImage_finish_def shown_state_def)

end
